theory Spec2Isabelle
  imports Complex_Main
begin

section \<open>AgriShield-AI: the training script and the liveness service\<close>

text \<open>
  Two programs are embedded: \<^verbatim>\<open>ml/train_plantvillage.py\<close>, a module that runs top to
  bottom when loaded, and \<^verbatim>\<open>backend/main.py\<close>, a FastAPI application with two
  handlers.  The training script is a straight line of calls into TensorFlow/Keras and
  the operating system.  What it reads from outside (environment, file system, the
  interpreter's \<^verbatim>\<open>int\<close>, the results of library calls) is a parameter of the model; what
  it does to the outside (the lines it prints, library calls in order, files written) is
  recorded in an explicit process state.  Every library call may raise; nothing in the
  script catches anything.
\<close>

subsection \<open>Environment, paths and decimal literals\<close>

type_synonym environ = "string \<rightharpoonup> string"

definition environ_get :: "environ \<Rightarrow> string \<Rightarrow> string \<Rightarrow> string" where
  \<comment> \<open>\<^verbatim>\<open>os.environ.get(key, default)\<close>\<close>
  "environ_get env key dflt = (case env key of None \<Rightarrow> dflt | Some v \<Rightarrow> v)"

datatype exn = ValueError | TypeError | ZeroDivisionError | LibraryError

definition py_isspace :: "char \<Rightarrow> bool" where
  \<comment> \<open>the ASCII white space that \<^verbatim>\<open>int\<close> strips: space, TAB, LF, VT, FF, CR\<close>
  "py_isspace c =
     (c = CHR '' '' \<or> c = CHR 0x09 \<or> c = CHR 0x0A \<or> c = CHR 0x0B \<or> c = CHR 0x0C \<or> c = CHR 0x0D)"

definition strip :: "string \<Rightarrow> string" where
  "strip s = rev (dropWhile py_isspace (rev (dropWhile py_isspace s)))"

definition digit_val :: "char \<Rightarrow> nat option" where
  "digit_val c =
     (if 48 \<le> (of_char c :: nat) \<and> (of_char c :: nat) \<le> 57 then Some (of_char c - 48) else None)"

text \<open>
  Decimal digits, where a single underscore may stand between two digits.  The flag says
  whether the previous character was a digit.
\<close>

fun digits :: "nat \<Rightarrow> bool \<Rightarrow> string \<Rightarrow> nat option" where
  "digits acc prev [] = (if prev then Some acc else None)"
| "digits acc prev (c # cs) =
     (if c = CHR ''_'' then (if prev then digits acc False cs else None)
      else (case digit_val c of
              None \<Rightarrow> None
            | Some d \<Rightarrow> digits (10 * acc + d) True cs))"

definition MAX_STR_DIGITS :: nat where
  "MAX_STR_DIGITS = 4300"

definition ascii_int :: "string \<Rightarrow> exn + int" where
  \<comment> \<open>\<^verbatim>\<open>int(s)\<close> of CPython 3.11 with its default settings, for a string of ASCII
      characters: white space is stripped, one sign is allowed, a literal of more than 4300
      digits is refused.  The interpreter also reads decimal digits and white space outside
      ASCII; here a string with such a character is refused.  This function is not part of
      the script's model: it is the \<open>builtin_int\<close> of the sample worlds below, which parse
      ASCII strings only.\<close>
  "ascii_int s =
     (if list_ex (\<lambda>c. 128 \<le> (of_char c :: nat)) s then Inl ValueError
      else if MAX_STR_DIGITS < length (filter (\<lambda>c. digit_val c \<noteq> None) s) then Inl ValueError
      else (case strip s of
        [] \<Rightarrow> Inl ValueError
      | c # cs \<Rightarrow>
          (if c = CHR ''-'' then
             (case digits 0 False cs of None \<Rightarrow> Inl ValueError | Some n \<Rightarrow> Inr (- int n))
           else if c = CHR ''+'' then
             (case digits 0 False cs of None \<Rightarrow> Inl ValueError | Some n \<Rightarrow> Inr (int n))
           else
             (case digits 0 False (c # cs) of None \<Rightarrow> Inl ValueError | Some n \<Rightarrow> Inr (int n)))))"

definition path_join :: "string \<Rightarrow> string \<Rightarrow> string" where
  \<comment> \<open>\<^verbatim>\<open>os.path.join(a, b)\<close> on POSIX\<close>
  "path_join a b =
     (if b \<noteq> [] \<and> hd b = CHR ''/'' then b
      else if a = [] \<or> last a = CHR ''/'' then a @ b
      else a @ ''/'' @ b)"


subsection \<open>What the script passes to the library\<close>

datatype subset = Training | Validation

record load_request =
  directory :: string
  validation_split :: rat
  subset_arg :: subset
  seed :: nat
  image_size :: "nat \<times> nat"
  batch_size :: nat
  label_mode :: string

record dataset =
  ds_class_names :: "string list"
  ds_file_paths :: "string list"

datatype ds_op = Cache | Shuffle nat | Prefetch

record pipeline =
  source :: load_request
  ops :: "ds_op list"

datatype aug_layer =
    RandomFlip string
  | RandomRotation rat
  | RandomZoom rat
  | RandomContrast rat
  | RandomBrightness rat

datatype layer =
    Sequential "aug_layer list"
  | Preprocess_input
  | Backbone
  | GlobalAveragePooling2D
  | Dropout rat
  | Dense nat string

text \<open>A layer is called with or without an explicit \<^verbatim>\<open>training=\<close> argument.\<close>

type_synonym layer_call = "layer \<times> bool option"

datatype schedule = CosineDecay rat int | Fixed rat

datatype optimizer = Adam schedule

text \<open>A loss object is built from keyword arguments, kept as written.\<close>

datatype loss =
    CategoricalCrossentropy "(string \<times> rat) list"
  | SparseCategoricalCrossentropy "(string \<times> rat) list"

record compile_args =
  optimizer :: optimizer
  loss :: loss
  metrics :: "string list"

datatype callback =
    EarlyStopping string nat bool
  | ModelCheckpoint string string bool

record fit_args =
  fit_x :: pipeline
  fit_validation_data :: pipeline
  fit_epochs :: int
  fit_callbacks :: "callback list"
  fit_class_weight :: "nat \<rightharpoonup> rat"

datatype call =
    Image_dataset_from_directory load_request
  | MobileNetV2 string bool "nat \<times> nat \<times> nat"
  | Set_trainable bool
  | Model "nat \<times> nat \<times> nat" "layer_call list"
  | Compile compile_args
  | Fit fit_args
  | Save string
  | Open_write string
  | Write string

text \<open>A training run as the library sees it: the arguments of \<^verbatim>\<open>fit\<close> and the state of
  the model at that moment.\<close>

record fit_run =
  run_args :: fit_args
  run_compiled :: "compile_args option"
  run_backbone_trainable :: bool

datatype fit_end = Epochs_exhausted | Stopped_early

datatype write_event = Saved_model string | Truncated string | Appended string string

subsection \<open>The outside world and the process state\<close>

text \<open>
  \<open>builtin_int\<close> is the interpreter's \<^verbatim>\<open>int\<close> on a string.  \<open>subdirs\<close> and \<open>image_paths\<close> are
  what the data set loader finds under a root: the class directories in sorted order and
  the image files in them, class by class.  \<open>shuffle\<close> is the loader's seeded shuffle.
\<close>

record world =
  builtin_int :: "string \<Rightarrow> exn + int"
  isdir :: "string \<Rightarrow> bool"
  listdir :: "string \<Rightarrow> string list"
  isfile :: "string \<Rightarrow> bool"
  subdirs :: "string \<Rightarrow> string list"
  image_paths :: "string \<Rightarrow> string list"
  shuffle :: "nat \<Rightarrow> string list \<Rightarrow> string list"
  raises :: "call \<Rightarrow> exn option"
  fit_end :: "fit_run \<Rightarrow> fit_end"
  checkpoint_saved :: "fit_run \<Rightarrow> bool"

datatype status = Running | Exited nat | Raised exn

text \<open>\<open>printed\<close> holds the lines the script's own \<^verbatim>\<open>print\<close> calls have written; what
  the library prints is not recorded.\<close>

record proc =
  printed :: "string list"
  calls :: "call list"
  fits :: "fit_run list"
  writes :: "write_event list"
  backbone_trainable :: bool
  compiled :: "compile_args option"
  opened :: "string option"
  status :: status

definition start :: proc where
  "start = \<lparr>printed = [], calls = [], fits = [], writes = [], backbone_trainable = True,
            compiled = None, opened = None, status = Running\<rparr>"


definition raise :: "exn \<Rightarrow> proc \<Rightarrow> proc" where
  "raise e p = (if status p = Running then p\<lparr>status := Raised e\<rparr> else p)"

definition completed :: "proc \<Rightarrow> bool" where
  \<comment> \<open>the run ended without an uncaught exception\<close>
  "completed p = (case status p of Raised e \<Rightarrow> False | Exited n \<Rightarrow> True | Running \<Rightarrow> True)"

definition finish :: "proc \<Rightarrow> proc" where
  \<comment> \<open>the end of the module: the interpreter exits with code 0\<close>
  "finish p = (if status p = Running then p\<lparr>status := Exited 0\<rparr> else p)"

text \<open>
  What a call does as soon as it is made, whether it returns or raises: \<^verbatim>\<open>fit\<close> trains
  the model as it is compiled at that moment, and its checkpoint callback may save the
  best model after an epoch.
\<close>

fun begun :: "world \<Rightarrow> call \<Rightarrow> proc \<Rightarrow> proc" where
  "begun w (Fit a) p =
     (let r = \<lparr>run_args = a, run_compiled = compiled p,
                run_backbone_trainable = backbone_trainable p\<rparr>
      in p\<lparr>fits := fits p @ [r],
           writes := writes p @
             (if checkpoint_saved w r
              then concat (map (\<lambda>cb. case cb of ModelCheckpoint f m b \<Rightarrow> [Saved_model f]
                                          | EarlyStopping m n b \<Rightarrow> []) (fit_callbacks a))
              else [])\<rparr>)"
| "begun w c p = p"

text \<open>What a call has done when it returns.\<close>

fun effect :: "world \<Rightarrow> call \<Rightarrow> proc \<Rightarrow> proc" where
  "effect w (Set_trainable b) p = p\<lparr>backbone_trainable := b\<rparr>"
| "effect w (Compile a) p = p\<lparr>compiled := Some a\<rparr>"
| "effect w (Save f) p = p\<lparr>writes := writes p @ [Saved_model f]\<rparr>"
| "effect w (Open_write f) p = p\<lparr>writes := writes p @ [Truncated f], opened := Some f\<rparr>"
| "effect w (Write s) p =
     (case opened p of None \<Rightarrow> p | Some f \<Rightarrow> p\<lparr>writes := writes p @ [Appended f s]\<rparr>)"
| "effect w c p = p"

definition step :: "world \<Rightarrow> call \<Rightarrow> proc \<Rightarrow> proc" where
  \<comment> \<open>one statement that calls the library: nothing happens once the process has ended\<close>
  "step w c p =
     (if status p \<noteq> Running then p
      else (let q = begun w c (p\<lparr>calls := calls p @ [c]\<rparr>)
            in case raises w c of
                 Some e \<Rightarrow> q\<lparr>status := Raised e\<rparr>
               | None \<Rightarrow> effect w c q))"

definition steps :: "world \<Rightarrow> call list \<Rightarrow> proc \<Rightarrow> proc" where
  "steps w cs p = fold (step w) cs p"

subsection \<open>The script, top to bottom\<close>

definition IMG_SIZE :: "nat \<times> nat" where
  "IMG_SIZE = (224, 224)"

definition BATCH_SIZE :: nat where
  "BATCH_SIZE = 32"

definition load_args :: "string \<Rightarrow> subset \<Rightarrow> load_request" where
  "load_args DATA_DIR sub =
     \<lparr>directory = DATA_DIR, validation_split = 2 / 10, subset_arg = sub, seed = 123,
      image_size = IMG_SIZE, batch_size = BATCH_SIZE, label_mode = ''int''\<rparr>"

definition train_ds :: "string \<Rightarrow> pipeline" where
  "train_ds DATA_DIR = \<lparr>source = load_args DATA_DIR Training, ops = [Cache, Shuffle 1000, Prefetch]\<rparr>"

definition val_ds :: "string \<Rightarrow> pipeline" where
  "val_ds DATA_DIR = \<lparr>source = load_args DATA_DIR Validation, ops = [Cache, Prefetch]\<rparr>"

text \<open>
  The loader is library code (Keras), modelled after \<^verbatim>\<open>image_dataset_from_directory\<close>:
  the indexed files are shuffled with the seed, the last \<open>\<lfloor>validation_split * n\<rfloor>\<close> of
  them are the validation subset and the ones before are the training subset, taken with
  the slices \<^verbatim>\<open>samples[:-k]\<close> and \<^verbatim>\<open>samples[-k:]\<close>, so that for \<open>k = 0\<close> the training
  subset is empty and the validation subset is everything.
\<close>

definition num_val_samples :: "rat \<Rightarrow> nat \<Rightarrow> nat" where
  "num_val_samples split n = nat \<lfloor>split * of_nat n\<rfloor>"

definition training_or_validation_split :: "string list \<Rightarrow> rat \<Rightarrow> subset \<Rightarrow> string list" where
  "training_or_validation_split samples split sub =
     (let k = num_val_samples split (length samples) in
      case sub of
        Training \<Rightarrow> (if k = 0 then [] else take (length samples - k) samples)
      | Validation \<Rightarrow> (if k = 0 then samples else drop (length samples - k) samples))"

definition image_dataset_from_directory :: "world \<Rightarrow> load_request \<Rightarrow> dataset" where
  "image_dataset_from_directory w r =
     \<lparr>ds_class_names = subdirs w (directory r),
      ds_file_paths =
        training_or_validation_split
          (shuffle w (seed r) (image_paths w (directory r))) (validation_split r) (subset_arg r)\<rparr>"

definition class_names :: "world \<Rightarrow> string \<Rightarrow> string list" where
  "class_names w DATA_DIR =
     ds_class_names (image_dataset_from_directory w (load_args DATA_DIR Training))"

definition num_classes :: "world \<Rightarrow> string \<Rightarrow> nat" where
  "num_classes w DATA_DIR = length (class_names w DATA_DIR)"

definition data_augmentation :: "aug_layer list" where
  "data_augmentation =
     [RandomFlip ''horizontal'', RandomRotation (1 / 10), RandomZoom (15 / 100),
      RandomContrast (2 / 10), RandomBrightness (2 / 10)]"

definition input_shape :: "nat \<times> nat \<times> nat" where
  "input_shape = (fst IMG_SIZE, snd IMG_SIZE, 3)"

definition model_layers :: "nat \<Rightarrow> layer_call list" where
  "model_layers n =
     [(Sequential data_augmentation, None),
      (Preprocess_input, None),
      (Backbone, Some False),
      (GlobalAveragePooling2D, None),
      (Dropout (2 / 10), None),
      (Dense n ''softmax'', None)]"

definition lr_schedule :: "int \<Rightarrow> schedule" where
  "lr_schedule EPOCHS = CosineDecay (1 / 1000) (EPOCHS * 1000)"

definition opt :: "int \<Rightarrow> optimizer" where
  "opt EPOCHS = Adam (lr_schedule EPOCHS)"

definition compile_head :: "int \<Rightarrow> compile_args" where
  "compile_head EPOCHS =
     \<lparr>optimizer = opt EPOCHS, loss = SparseCategoricalCrossentropy [(''label_smoothing'', 1 / 10)],
      metrics = [''accuracy'']\<rparr>"

definition callbacks :: "callback list" where
  "callbacks =
     [EarlyStopping ''val_accuracy'' 3 True,
      ModelCheckpoint ''best_model.h5'' ''val_accuracy'' True]"

definition file_count :: "world \<Rightarrow> string \<Rightarrow> nat" where
  \<comment> \<open>\<^verbatim>\<open>len([f for f in os.listdir(d) if os.path.isfile(os.path.join(d, f))])\<close>\<close>
  "file_count w d = length (filter (\<lambda>f. isfile w (path_join d f)) (listdir w d))"

fun count_loop :: "world \<Rightarrow> string \<Rightarrow> string list \<Rightarrow> int \<times> int list \<Rightarrow> int \<times> int list" where
  "count_loop w DATA_DIR [] (total', counts) = (total', counts)"
| "count_loop w DATA_DIR (name # names) (total', counts) =
     (let d = path_join DATA_DIR name;
          c = int (file_count w d)
      in count_loop w DATA_DIR names (total' + c, counts @ [c]))"

definition truediv :: "int \<Rightarrow> int \<Rightarrow> exn + rat" where
  \<comment> \<open>\<^verbatim>\<open>a / b\<close> on two ints; the quotient is kept exact, where Python rounds it to a float\<close>
  "truediv a b = (if b = 0 then Inl ZeroDivisionError else Inr (of_int a / of_int b))"

fun weight_loop ::
  "int \<Rightarrow> int \<Rightarrow> (nat \<times> int) list \<Rightarrow> (nat \<rightharpoonup> rat) \<Rightarrow> exn + (nat \<rightharpoonup> rat)" where
  "weight_loop total' n [] cw = Inr cw"
| "weight_loop total' n ((i, c) # ics) cw =
     (case truediv total' (n * max c 1) of
        Inl e \<Rightarrow> Inl e
      | Inr q \<Rightarrow> weight_loop total' n ics (cw(i \<mapsto> q)))"

definition total_count :: "world \<Rightarrow> string \<Rightarrow> int" where
  \<comment> \<open>the variable \<^verbatim>\<open>total\<close> after the loop\<close>
  "total_count w DATA_DIR = fst (count_loop w DATA_DIR (class_names w DATA_DIR) (0, []))"

definition counts :: "world \<Rightarrow> string \<Rightarrow> int list" where
  "counts w DATA_DIR = snd (count_loop w DATA_DIR (class_names w DATA_DIR) (0, []))"

definition class_weight :: "world \<Rightarrow> string \<Rightarrow> exn + (nat \<rightharpoonup> rat)" where
  "class_weight w DATA_DIR =
     weight_loop (total_count w DATA_DIR) (int (num_classes w DATA_DIR))
       (enumerate 0 (counts w DATA_DIR)) Map.empty"

definition fine_opt :: optimizer where
  "fine_opt = Adam (Fixed (1 / 100000))"

definition compile_fine :: compile_args where
  "compile_fine =
     \<lparr>optimizer = fine_opt, loss = SparseCategoricalCrossentropy [(''label_smoothing'', 1 / 10)],
      metrics = [''accuracy'']\<rparr>"

definition fit_head :: "string \<Rightarrow> int \<Rightarrow> (nat \<rightharpoonup> rat) \<Rightarrow> fit_args" where
  "fit_head DATA_DIR EPOCHS cw =
     \<lparr>fit_x = train_ds DATA_DIR, fit_validation_data = val_ds DATA_DIR, fit_epochs = EPOCHS,
      fit_callbacks = callbacks, fit_class_weight = cw\<rparr>"

definition fit_fine :: "string \<Rightarrow> int \<Rightarrow> (nat \<rightharpoonup> rat) \<Rightarrow> fit_args" where
  "fit_fine DATA_DIR EPOCHS_FINE cw =
     \<lparr>fit_x = train_ds DATA_DIR, fit_validation_data = val_ds DATA_DIR, fit_epochs = EPOCHS_FINE,
      fit_callbacks = callbacks, fit_class_weight = cw\<rparr>"

text \<open>The two training runs the script asks for: the head on the frozen backbone, then
  the whole network.\<close>

definition head_run :: "string \<Rightarrow> int \<Rightarrow> (nat \<rightharpoonup> rat) \<Rightarrow> fit_run" where
  "head_run DATA_DIR EPOCHS cw =
     \<lparr>run_args = fit_head DATA_DIR EPOCHS cw, run_compiled = Some (compile_head EPOCHS),
      run_backbone_trainable = False\<rparr>"

definition fine_run :: "string \<Rightarrow> int \<Rightarrow> (nat \<rightharpoonup> rat) \<Rightarrow> fit_run" where
  "fine_run DATA_DIR EPOCHS_FINE cw =
     \<lparr>run_args = fit_fine DATA_DIR EPOCHS_FINE cw, run_compiled = Some compile_fine,
      run_backbone_trainable = True\<rparr>"

definition checkpoint :: "world \<Rightarrow> fit_run \<Rightarrow> write_event list" where
  \<comment> \<open>what the checkpoint callback of \<open>callbacks\<close> writes during a run\<close>
  "checkpoint w r = (if checkpoint_saved w r then [Saved_model ''best_model.h5''] else [])"

text \<open>Lines 20 to 73: the two datasets, the model and its first compilation.\<close>

definition assemble :: "world \<Rightarrow> string \<Rightarrow> int \<Rightarrow> call list" where
  "assemble w DATA_DIR EPOCHS =
     [Image_dataset_from_directory (load_args DATA_DIR Training),
      Image_dataset_from_directory (load_args DATA_DIR Validation),
      MobileNetV2 ''imagenet'' False input_shape,
      Set_trainable False,
      Model input_shape (model_layers (num_classes w DATA_DIR)),
      Compile (compile_head EPOCHS)]"

text \<open>Lines 95 to 101.\<close>

definition phase1 :: "string \<Rightarrow> int \<Rightarrow> (nat \<rightharpoonup> rat) \<Rightarrow> call list" where
  "phase1 DATA_DIR EPOCHS cw = [Fit (fit_head DATA_DIR EPOCHS cw)]"

text \<open>Lines 103 to 117.\<close>

definition phase2 :: "string \<Rightarrow> int \<Rightarrow> (nat \<rightharpoonup> rat) \<Rightarrow> call list" where
  "phase2 DATA_DIR EPOCHS_FINE cw =
     [Set_trainable True, Compile compile_fine, Fit (fit_fine DATA_DIR EPOCHS_FINE cw)]"

text \<open>Lines 119 to 123.\<close>

definition export :: "world \<Rightarrow> string \<Rightarrow> string \<Rightarrow> call list" where
  "export w DATA_DIR OUTPUT_PATH =
     Save OUTPUT_PATH # Open_write ''class_names.txt'' #
     map (\<lambda>name. Write (name @ [CHR 0x0A])) (class_names w DATA_DIR)"

definition main_body :: "world \<Rightarrow> string \<Rightarrow> int \<Rightarrow> int \<Rightarrow> string \<Rightarrow> proc \<Rightarrow> proc" where
  "main_body w DATA_DIR EPOCHS EPOCHS_FINE OUTPUT_PATH p =
     (let p1 = steps w (assemble w DATA_DIR EPOCHS) p
      in case class_weight w DATA_DIR of
           Inl e \<Rightarrow> raise e p1
         | Inr cw \<Rightarrow>
             steps w (export w DATA_DIR OUTPUT_PATH)
               (steps w (phase2 DATA_DIR EPOCHS_FINE cw)
                  (steps w (phase1 DATA_DIR EPOCHS cw) p1)))"

definition run :: "world \<Rightarrow> environ \<Rightarrow> proc" where
  "run w env =
     (let DATA_DIR = environ_get env ''PLANTVILLAGE_DIR'' ''data/plantvillage'' in
      case builtin_int w (environ_get env ''EPOCHS'' ''10'') of
        Inl e \<Rightarrow> raise e start
      | Inr EPOCHS \<Rightarrow>
          (case builtin_int w (environ_get env ''EPOCHS_FINE'' ''5'') of
             Inl e \<Rightarrow> raise e start
           | Inr EPOCHS_FINE \<Rightarrow>
               (let OUTPUT_PATH = environ_get env ''OUTPUT_PATH'' ''model.h5'' in
                if \<not> isdir w DATA_DIR then
                  start\<lparr>printed := [''Missing dataset directory: '' @ DATA_DIR,
                           ''Set PLANTVILLAGE_DIR to the root containing class subfolders.''],
                        status := Exited 1\<rparr>
                else finish (main_body w DATA_DIR EPOCHS EPOCHS_FINE OUTPUT_PATH start))))"

subsection \<open>Reading the written file back\<close>

definition text_of :: "string \<Rightarrow> write_event list \<Rightarrow> string" where
  \<comment> \<open>the text in file \<open>f\<close> after the events: opening for writing empties it, a write appends\<close>
  "text_of f evs =
     fold (\<lambda>ev acc. case ev of
                       Truncated g \<Rightarrow> (if g = f then [] else acc)
                     | Appended g s \<Rightarrow> (if g = f then acc @ s else acc)
                     | Saved_model g \<Rightarrow> acc) evs []"

fun lines_from :: "string \<Rightarrow> string \<Rightarrow> string list" where
  \<comment> \<open>the lines of a text, each ended by LF; the first argument is the line being read\<close>
  "lines_from cur [] = (if cur = [] then [] else [cur])"
| "lines_from cur (c # cs) =
     (if c = CHR 0x0A then cur # lines_from [] cs else lines_from (cur @ [c]) cs)"

definition splitlines :: "string \<Rightarrow> string list" where
  "splitlines s = lines_from [] s"

subsection \<open>Calling the assembled model\<close>

text \<open>
  The layers are library code; their meaning is a parameter.  A layer called without
  \<^verbatim>\<open>training=\<close> takes the mode of the enclosing call; the random preprocessing layers of
  a \<^verbatim>\<open>Sequential\<close> transform their input in training mode and pass it on unchanged
  otherwise.
\<close>

record ('a, 'r) keras =
  random_transform :: "aug_layer \<Rightarrow> 'r \<Rightarrow> 'a \<Rightarrow> 'a"
  layer_fn :: "layer \<Rightarrow> bool \<Rightarrow> 'r \<Rightarrow> 'a \<Rightarrow> 'a"

definition augment :: "('a, 'r) keras \<Rightarrow> 'r \<Rightarrow> aug_layer list \<Rightarrow> 'a \<Rightarrow> 'a" where
  "augment K rnd ls x = fold (\<lambda>l. random_transform K l rnd) ls x"

definition call_layer :: "('a, 'r) keras \<Rightarrow> bool \<Rightarrow> 'r \<Rightarrow> layer_call \<Rightarrow> 'a \<Rightarrow> 'a" where
  "call_layer K training rnd lc x =
     (let t = (case snd lc of None \<Rightarrow> training | Some b \<Rightarrow> b)
      in case fst lc of
           Sequential ls \<Rightarrow> (if t then augment K rnd ls x else x)
         | Preprocess_input \<Rightarrow> layer_fn K Preprocess_input t rnd x
         | Backbone \<Rightarrow> layer_fn K Backbone t rnd x
         | GlobalAveragePooling2D \<Rightarrow> layer_fn K GlobalAveragePooling2D t rnd x
         | Dropout r \<Rightarrow> layer_fn K (Dropout r) t rnd x
         | Dense n a \<Rightarrow> layer_fn K (Dense n a) t rnd x)"

definition model_call :: "('a, 'r) keras \<Rightarrow> bool \<Rightarrow> 'r \<Rightarrow> layer_call list \<Rightarrow> 'a \<Rightarrow> 'a" where
  "model_call K training rnd ls x = fold (call_layer K training rnd) ls x"

subsection \<open>The liveness service\<close>

datatype json = JString string | JObject "(string \<times> json) list"

record request =
  req_method :: string
  req_path :: string

record response =
  status_code :: nat
  body :: json

record cors =
  allow_origins :: "string list"
  allow_credentials :: bool
  allow_methods :: "string list"
  allow_headers :: "string list"

definition origins :: "string list" where
  "origins = [''http://localhost:5173'', ''http://localhost:3000'', ''*'']"

definition cors_middleware :: cors where
  "cors_middleware =
     \<lparr>allow_origins = origins, allow_credentials = True, allow_methods = [''*''],
      allow_headers = [''*'']\<rparr>"

definition is_allowed_origin :: "cors \<Rightarrow> string \<Rightarrow> bool" where
  \<comment> \<open>the middleware's test of a request's \<^verbatim>\<open>Origin\<close>: the wild card admits every origin\<close>
  "is_allowed_origin c origin =
     (''*'' \<in> set (allow_origins c) \<or> origin \<in> set (allow_origins c))"

definition read_root :: json where
  "read_root =
     JObject [(''message'', JString ''Welcome to AgriShield AI Backend''),
              (''status'', JString ''active'')]"

definition health_check :: json where
  "health_check = JObject [(''status'', JString ''healthy'')]"

definition routes :: "(string \<times> string \<times> json) list" where
  \<comment> \<open>\<^verbatim>\<open>@app.get("/")\<close> and \<^verbatim>\<open>@app.get("/health")\<close>\<close>
  "routes = [(''GET'', ''/'', read_root), (''GET'', ''/health'', health_check)]"

definition app :: "request \<Rightarrow> response option" where
  \<comment> \<open>a request that matches a route is answered by its handler with status 200; any other
      request is answered by the framework, outside this model\<close>
  "app r =
     (case find (\<lambda>(m, p, h). m = req_method r \<and> p = req_path r) routes of
        None \<Rightarrow> None
      | Some (m, p, h) \<Rightarrow> Some \<lparr>status_code = 200, body = h\<rparr>)"

definition serve :: "request list \<Rightarrow> response option list" where
  \<comment> \<open>the answers to a sequence of requests: the handlers keep no state\<close>
  "serve rs = map app rs"

subsection \<open>The loss constructors of the library\<close>

text \<open>
  Keras as released: \<^verbatim>\<open>CategoricalCrossentropy\<close> has a \<^verbatim>\<open>label_smoothing\<close> parameter,
  \<^verbatim>\<open>SparseCategoricalCrossentropy\<close> has none, and a constructor called with a keyword
  it does not have raises \<^verbatim>\<open>TypeError\<close>.  The loss object is built while the arguments of
  \<^verbatim>\<open>model.compile\<close> are evaluated, so the statement that compiles is the one that raises.
\<close>

definition loss_keywords :: "loss \<Rightarrow> string list" where
  "loss_keywords l =
     (case l of
        CategoricalCrossentropy kw \<Rightarrow>
          [''from_logits'', ''label_smoothing'', ''axis'', ''reduction'', ''name'', ''dtype'']
      | SparseCategoricalCrossentropy kw \<Rightarrow>
          [''from_logits'', ''ignore_class'', ''reduction'', ''name'', ''dtype''])"

definition loss_arguments :: "loss \<Rightarrow> (string \<times> rat) list" where
  "loss_arguments l =
     (case l of CategoricalCrossentropy kw \<Rightarrow> kw | SparseCategoricalCrossentropy kw \<Rightarrow> kw)"

definition keras_raises :: "call \<Rightarrow> exn option" where
  "keras_raises c =
     (case c of
        Compile a \<Rightarrow>
          (if list_all (\<lambda>k. k \<in> set (loss_keywords (loss a)))
                (map fst (loss_arguments (loss a)))
           then None else Some TypeError)
      | Image_dataset_from_directory r \<Rightarrow> None
      | MobileNetV2 wts inc shape \<Rightarrow> None
      | Set_trainable b \<Rightarrow> None
      | Model shape ls \<Rightarrow> None
      | Fit a \<Rightarrow> None
      | Save f \<Rightarrow> None
      | Open_write f \<Rightarrow> None
      | Write t \<Rightarrow> None)"

subsection \<open>A small data set\<close>

text \<open>
  Three classes with 10, 20 and 30 image files under the default root.  The interpreter
  reads ASCII decimal literals, the shuffle reverses the list, every library call
  returns, each training run stops early and saves a checkpoint when it ran at least one
  epoch.
\<close>

definition sample_files :: "nat \<Rightarrow> string list" where
  "sample_files n = map (\<lambda>k. replicate (Suc k) CHR ''x'' @ ''.jpg'') [0..<n]"

definition sample_world :: world where
  "sample_world =
     \<lparr>builtin_int = ascii_int,
      isdir = (\<lambda>d. d = ''data/plantvillage''),
      listdir = (\<lambda>d. if d = ''data/plantvillage/blight'' then sample_files 10
                     else if d = ''data/plantvillage/healthy'' then sample_files 20
                     else if d = ''data/plantvillage/rust'' then sample_files 30
                     else []),
      isfile = (\<lambda>f. True),
      subdirs = (\<lambda>d. if d = ''data/plantvillage'' then [''blight'', ''healthy'', ''rust'']
                     else []),
      image_paths = (\<lambda>d. if d = ''data/plantvillage''
                     then map (\<lambda>f. ''data/plantvillage/blight/'' @ f) (sample_files 10)
                        @ map (\<lambda>f. ''data/plantvillage/healthy/'' @ f) (sample_files 20)
                        @ map (\<lambda>f. ''data/plantvillage/rust/'' @ f) (sample_files 30)
                     else []),
      shuffle = (\<lambda>sd xs. rev xs),
      raises = (\<lambda>c. None),
      fit_end = (\<lambda>r. Stopped_early),
      checkpoint_saved = (\<lambda>r. 0 < fit_epochs (run_args r))\<rparr>"


text \<open>The same machine with the library as released.\<close>

definition keras_world :: world where
  "keras_world = sample_world\<lparr>raises := keras_raises\<rparr>"

text \<open>A data set of five images in two classes.\<close>

definition five_images :: "string list" where
  "five_images =
     [''data/plantvillage/blight/1.jpg'', ''data/plantvillage/blight/2.jpg'',
      ''data/plantvillage/rust/1.jpg'', ''data/plantvillage/rust/2.jpg'',
      ''data/plantvillage/rust/3.jpg'']"

definition small_world :: world where
  "small_world =
     sample_world
       \<lparr>listdir := (\<lambda>d. if d = ''data/plantvillage/blight'' then [''1.jpg'', ''2.jpg'']
                        else if d = ''data/plantvillage/rust'' then [''1.jpg'', ''2.jpg'', ''3.jpg'']
                        else []),
        subdirs := (\<lambda>d. if d = ''data/plantvillage'' then [''blight'', ''rust''] else []),
        image_paths := (\<lambda>d. if d = ''data/plantvillage'' then five_images else [])\<rparr>"

section \<open>Properties of the training script\<close>

subsection \<open>Running a sequence of calls\<close>

lemma steps_Nil [simp]: "steps w [] p = p"
  by (simp add: steps_def)

lemma steps_Cons [simp]: "steps w (c # cs) p = steps w cs (step w c p)"
  by (simp add: steps_def)

lemma steps_append: "steps w (cs @ ds) p = steps w ds (steps w cs p)"
  by (simp add: steps_def)

lemma begun_status [simp]: "status (begun w c p) = status p"
  by (cases c) (simp_all add: Let_def)

lemma begun_calls [simp]: "calls (begun w c p) = calls p"
  by (cases c) (simp_all add: Let_def)

lemma begun_printed [simp]: "printed (begun w c p) = printed p"
  by (cases c) (simp_all add: Let_def)

lemma effect_status [simp]: "status (effect w c p) = status p"
  by (cases c) (simp_all split: option.splits)

lemma effect_calls [simp]: "calls (effect w c p) = calls p"
  by (cases c) (simp_all split: option.splits)

lemma effect_printed [simp]: "printed (effect w c p) = printed p"
  by (cases c) (simp_all split: option.splits)

lemma effect_fits [simp]: "fits (effect w c p) = fits p"
  by (cases c) (simp_all split: option.splits)

lemma step_halted: "status p \<noteq> Running \<Longrightarrow> step w c p = p"
  by (simp add: step_def)

lemma steps_halted: "status p \<noteq> Running \<Longrightarrow> steps w cs p = p"
  by (induction cs) (simp_all add: step_halted)

lemma step_running:
  "status (step w c p) = Running \<longleftrightarrow> status p = Running \<and> raises w c = None"
  by (auto simp: step_def Let_def split: option.splits)

lemma steps_running:
  "status (steps w cs p) = Running \<longleftrightarrow> status p = Running \<and> (\<forall>c \<in> set cs. raises w c = None)"
  by (induction cs arbitrary: p) (auto simp: step_running)

lemma step_exited: "status (step w c p) = Exited n \<Longrightarrow> status p = Exited n"
  by (auto simp: step_def Let_def split: option.splits if_splits)

lemma steps_exited: "status (steps w cs p) = Exited n \<Longrightarrow> status p = Exited n"
proof (induction cs arbitrary: p)
  case Nil
  then show ?case by simp
next
  case (Cons c cs)
  from Cons.prems have "status (steps w cs (step w c p)) = Exited n" by simp
  then have "status (step w c p) = Exited n" by (rule Cons.IH)
  then show ?case by (rule step_exited)
qed

lemma step_printed [simp]: "printed (step w c p) = printed p"
  by (simp add: step_def Let_def split: option.splits)

lemma steps_printed [simp]: "printed (steps w cs p) = printed p"
  by (induction cs arbitrary: p) simp_all

lemma step_calls: "status p = Running \<Longrightarrow> calls (step w c p) = calls p @ [c]"
  by (simp add: step_def Let_def split: option.splits)

lemma steps_calls_extend: "\<exists>rest. calls (steps w cs p) = calls p @ rest"
proof (induction cs arbitrary: p)
  case Nil
  then show ?case by simp
next
  case (Cons c cs)
  obtain rest where r: "calls (steps w cs (step w c p)) = calls (step w c p) @ rest"
    using Cons.IH by blast
  show ?case
  proof (cases "status p = Running")
    case True
    then show ?thesis using r by (simp add: step_calls)
  next
    case False
    then show ?thesis by (simp add: step_halted steps_halted)
  qed
qed

lemma steps_calls_first:
  assumes "status p = Running"
  shows "\<exists>rest. calls (steps w (c # cs) p) = calls p @ c # rest"
proof -
  obtain rest where "calls (steps w cs (step w c p)) = calls (step w c p) @ rest"
    using steps_calls_extend by blast
  then show ?thesis using assms by (simp add: step_calls)
qed

lemma steps_calls_ok:
  "status (steps w cs p) = Running \<Longrightarrow> calls (steps w cs p) = calls p @ cs"
proof (induction cs arbitrary: p)
  case Nil
  then show ?case by simp
next
  case (Cons c cs)
  from Cons.prems have run: "status (step w c p) = Running"
    by (simp add: steps_running)
  then have "status p = Running" by (simp add: step_running)
  then show ?case using Cons.IH [of "step w c p"] Cons.prems by (simp add: step_calls)
qed

subsection \<open>Configuration and the directory guard\<close>

lemma run_parse_error:
  assumes "builtin_int w (environ_get env ''EPOCHS'' ''10'') = Inl e
         \<or> builtin_int w (environ_get env ''EPOCHS_FINE'' ''5'') = Inl e"
  shows "\<exists>e'. run w env = start\<lparr>status := Raised e'\<rparr>"
proof -
  have st: "status start = Running" by (simp add: start_def)
  show ?thesis
    using assms st
    by (auto simp: run_def raise_def Let_def split: sum.splits)
qed

lemma run_missing_dir:
  assumes "builtin_int w (environ_get env ''EPOCHS'' ''10'') = Inr E"
    and "builtin_int w (environ_get env ''EPOCHS_FINE'' ''5'') = Inr EF"
    and "\<not> isdir w (environ_get env ''PLANTVILLAGE_DIR'' ''data/plantvillage'')"
  shows "run w env =
     start\<lparr>printed := [''Missing dataset directory: '' @ environ_get env ''PLANTVILLAGE_DIR'' ''data/plantvillage'',
                      ''Set PLANTVILLAGE_DIR to the root containing class subfolders.''],
           status := Exited 1\<rparr>"
  using assms by (simp add: run_def Let_def)

lemma run_body:
  assumes "builtin_int w (environ_get env ''EPOCHS'' ''10'') = Inr E"
    and "builtin_int w (environ_get env ''EPOCHS_FINE'' ''5'') = Inr EF"
    and "isdir w (environ_get env ''PLANTVILLAGE_DIR'' ''data/plantvillage'')"
  shows "run w env =
     finish (main_body w (environ_get env ''PLANTVILLAGE_DIR'' ''data/plantvillage'') E EF
               (environ_get env ''OUTPUT_PATH'' ''model.h5'') start)"
  using assms by (simp add: run_def Let_def)

subsection \<open>The class-weight loops\<close>

lemma count_loop_eq:
  "count_loop w D names (t, cs) =
     (t + sum_list (map (\<lambda>nm. int (file_count w (path_join D nm))) names),
      cs @ map (\<lambda>nm. int (file_count w (path_join D nm))) names)"
  by (induction names arbitrary: t cs) (simp_all add: Let_def)

lemma weight_loop_eq:
  "n \<noteq> 0 \<Longrightarrow>
   weight_loop t n (enumerate k cs) cw =
     Inr (\<lambda>i. if k \<le> i \<and> i < k + length cs
              then Some (of_int t / of_int (n * max (cs ! (i - k)) 1)) else cw i)"
proof (induction cs arbitrary: k cw)
  case Nil
  then show ?case by (auto simp: fun_eq_iff)
next
  case (Cons c cs)
  have nz: "n * max c 1 \<noteq> 0" using Cons.prems by simp
  show ?case
    using Cons.IH [OF Cons.prems, of "Suc k"] nz
    by (auto simp: truediv_def fun_eq_iff nth_Cons' Suc_diff_le)
qed

lemma counts_eq:
  "counts w D = map (\<lambda>nm. int (file_count w (path_join D nm))) (class_names w D)"
  by (simp add: counts_def count_loop_eq)

lemma total_count_eq: "total_count w D = sum_list (counts w D)"
  by (simp add: total_count_def counts_def count_loop_eq)

lemma class_weight_eq:
  "class_weight w D =
     Inr (\<lambda>i. if i < num_classes w D
              then Some (of_int (total_count w D) /
                         of_int (int (num_classes w D) * max (counts w D ! i) 1))
              else None)"
proof (cases "num_classes w D = 0")
  case True
  then have "counts w D = []" by (simp add: counts_eq num_classes_def)
  then show ?thesis using True by (simp add: class_weight_def)
next
  case False
  then have nz: "int (num_classes w D) \<noteq> 0" by simp
  have len: "length (counts w D) = num_classes w D"
    by (simp add: counts_eq num_classes_def)
  show ?thesis
    unfolding class_weight_def
    by (auto simp: weight_loop_eq [OF nz] len fun_eq_iff)
qed

subsection \<open>Runs that reach the end\<close>

lemma main_body_eq:
  assumes "class_weight w D = Inr cw"
  shows "main_body w D E EF OUT p =
     steps w (assemble w D E @ phase1 D E cw @ phase2 D EF cw @ export w D OUT) p"
  using assms by (simp add: main_body_def steps_append Let_def)

lemma finish_status:
  "status (finish p) = Exited 0 \<longleftrightarrow> status p = Running \<or> status p = Exited 0"
  by (simp add: finish_def)

lemma start_running [simp]: "status start = Running"
  by (simp add: start_def)

lemma run_exited0:
  assumes "status (run w env) = Exited 0"
  obtains E EF cw where
    "builtin_int w (environ_get env ''EPOCHS'' ''10'') = Inr E"
    "builtin_int w (environ_get env ''EPOCHS_FINE'' ''5'') = Inr EF"
    "isdir w (environ_get env ''PLANTVILLAGE_DIR'' ''data/plantvillage'')"
    "class_weight w (environ_get env ''PLANTVILLAGE_DIR'' ''data/plantvillage'') = Inr cw"
    "status (main_body w (environ_get env ''PLANTVILLAGE_DIR'' ''data/plantvillage'') E EF
               (environ_get env ''OUTPUT_PATH'' ''model.h5'') start) = Running"
proof -
  let ?D = "environ_get env ''PLANTVILLAGE_DIR'' ''data/plantvillage''"
  obtain cw where cw: "class_weight w ?D = Inr cw" by (simp add: class_weight_eq)
  have no_parse_error: "\<not> (builtin_int w (environ_get env ''EPOCHS'' ''10'') = Inl e
         \<or> builtin_int w (environ_get env ''EPOCHS_FINE'' ''5'') = Inl e)" for e
  proof
    assume "builtin_int w (environ_get env ''EPOCHS'' ''10'') = Inl e
         \<or> builtin_int w (environ_get env ''EPOCHS_FINE'' ''5'') = Inl e"
    then obtain e' where "run w env = start\<lparr>status := Raised e'\<rparr>"
      using run_parse_error by blast
    with assms show False by simp
  qed
  obtain E where E: "builtin_int w (environ_get env ''EPOCHS'' ''10'') = Inr E"
    using no_parse_error by (cases "builtin_int w (environ_get env ''EPOCHS'' ''10'')") auto
  obtain EF where EF: "builtin_int w (environ_get env ''EPOCHS_FINE'' ''5'') = Inr EF"
    using no_parse_error by (cases "builtin_int w (environ_get env ''EPOCHS_FINE'' ''5'')") auto
  have dir: "isdir w ?D"
    using assms run_missing_dir [OF E EF] by (cases "isdir w ?D") auto
  let ?b = "main_body w ?D E EF (environ_get env ''OUTPUT_PATH'' ''model.h5'') start"
  have "status (finish ?b) = Exited 0"
    using assms run_body [OF E EF dir] by simp
  then have "status ?b = Running \<or> status ?b = Exited 0" by (simp add: finish_status)
  moreover have "status ?b \<noteq> Exited 0"
    using steps_exited [of w _ start 0] by (auto simp: main_body_eq [OF cw])
  ultimately have "status ?b = Running" by simp
  with E EF dir cw show ?thesis by (rule that)
qed

lemma step_ok:
  "status p = Running \<Longrightarrow> raises w c = None \<Longrightarrow>
   step w c p = effect w c (begun w c (p\<lparr>calls := calls p @ [c]\<rparr>))"
  by (simp add: step_def)

lemma begun_fit_callbacks:
  "fit_callbacks a = callbacks \<Longrightarrow>
   begun w (Fit a) p =
     p\<lparr>fits := fits p @ [\<lparr>run_args = a, run_compiled = compiled p,
                             run_backbone_trainable = backbone_trainable p\<rparr>],
       writes := writes p @ checkpoint w \<lparr>run_args = a, run_compiled = compiled p,
                             run_backbone_trainable = backbone_trainable p\<rparr>\<rparr>"
  by (simp add: callbacks_def checkpoint_def Let_def)

lemma fit_head_callbacks [simp]: "fit_callbacks (fit_head D E cw) = callbacks"
  by (simp add: fit_head_def)

lemma fit_fine_callbacks [simp]: "fit_callbacks (fit_fine D E cw) = callbacks"
  by (simp add: fit_fine_def)

lemma steps_write_tail:
  assumes "status p = Running" and "opened p = Some f"
    and "\<forall>s \<in> set ss. raises w (Write s) = None"
  shows "writes (steps w (map Write ss) p) = writes p @ map (Appended f) ss
       \<and> fits (steps w (map Write ss) p) = fits p
       \<and> status (steps w (map Write ss) p) = Running"
  using assms
proof (induction ss arbitrary: p)
  case Nil
  then show ?case by simp
next
  case (Cons s ss)
  let ?q = "step w (Write s) p"
  have q: "?q = p\<lparr>calls := calls p @ [Write s], writes := writes p @ [Appended f s]\<rparr>"
    using Cons.prems by (simp add: step_ok)
  have "writes (steps w (map Write ss) ?q) = writes ?q @ map (Appended f) ss
       \<and> fits (steps w (map Write ss) ?q) = fits ?q
       \<and> status (steps w (map Write ss) ?q) = Running"
    using Cons.prems by (intro Cons.IH) (simp_all add: q)
  then show ?case by (simp add: q)
qed

lemma steps_no_fit:
  assumes "\<forall>c \<in> set cs. \<forall>a. c \<noteq> Fit a"
  shows "fits (steps w cs p) = fits p"
  using assms
proof (induction cs arbitrary: p)
  case Nil
  then show ?case by simp
next
  case (Cons c cs)
  have "fits (step w c p) = fits p"
    using Cons.prems by (cases c) (auto simp: step_def Let_def split: option.splits)
  then show ?case using Cons by simp
qed

lemma export_no_fit: "\<forall>c \<in> set (export w D OUT). \<forall>a. c \<noteq> Fit a"
  by (auto simp: export_def)

text \<open>The state before export when every call so far has returned.\<close>

lemma trained_state:
  assumes "status (steps w (assemble w D E @ phase1 D E cw @ phase2 D EF cw) start) = Running"
  shows "fits (steps w (assemble w D E @ phase1 D E cw @ phase2 D EF cw) start)
           = [head_run D E cw, fine_run D EF cw]"
    and "writes (steps w (assemble w D E @ phase1 D E cw @ phase2 D EF cw) start)
           = checkpoint w (head_run D E cw) @ checkpoint w (fine_run D EF cw)"
    and "opened (steps w (assemble w D E @ phase1 D E cw @ phase2 D EF cw) start) = None"
proof -
  from assms have ok: "\<forall>c \<in> set (assemble w D E @ phase1 D E cw @ phase2 D EF cw). raises w c = None"
    by (simp add: steps_running)
  have st: "steps w (assemble w D E @ phase1 D E cw @ phase2 D EF cw) start =
     start\<lparr>calls := assemble w D E @ phase1 D E cw @ phase2 D EF cw,
           fits := [head_run D E cw, fine_run D EF cw],
           writes := checkpoint w (head_run D E cw) @ checkpoint w (fine_run D EF cw),
           backbone_trainable := True, compiled := Some compile_fine\<rparr>"
    using ok
    by (simp add: assemble_def phase1_def phase2_def step_ok Let_def callbacks_def
        checkpoint_def head_run_def fine_run_def start_def)
  show "fits (steps w (assemble w D E @ phase1 D E cw @ phase2 D EF cw) start)
           = [head_run D E cw, fine_run D EF cw]"
    and "writes (steps w (assemble w D E @ phase1 D E cw @ phase2 D EF cw) start)
           = checkpoint w (head_run D E cw) @ checkpoint w (fine_run D EF cw)"
    and "opened (steps w (assemble w D E @ phase1 D E cw @ phase2 D EF cw) start) = None"
    unfolding st by (simp_all add: start_def)
qed

lemma text_of_appended:
  "fold (\<lambda>ev acc. case ev of
                       Truncated g \<Rightarrow> (if g = f then [] else acc)
                     | Appended g s \<Rightarrow> (if g = f then acc @ s else acc)
                     | Saved_model g \<Rightarrow> acc) (map (Appended f) ss) acc = acc @ concat ss"
  by (induction ss arbitrary: acc) simp_all

lemma text_of_written:
  "text_of f (evs @ Truncated f # map (Appended f) ss) = concat ss"
  by (simp add: text_of_def text_of_appended)

lemma lines_from_line:
  "CHR 0x0A \<notin> set n \<Longrightarrow> lines_from cur (n @ CHR 0x0A # rest) = (cur @ n) # lines_from [] rest"
  by (induction n arbitrary: cur) auto

lemma splitlines_written:
  "\<forall>n \<in> set ns. CHR 0x0A \<notin> set n \<Longrightarrow>
   splitlines (concat (map (\<lambda>n. n @ [CHR 0x0A]) ns)) = ns"
  unfolding splitlines_def
proof (induction ns)
  case Nil
  then show ?case by simp
next
  case (Cons n ns)
  then show ?case using lines_from_line [of n "[]"] by simp
qed

text \<open>A run that ends with exit code 0.\<close>

lemma completed_run:
  assumes "status (run w env) = Exited 0"
  obtains E EF cw where
    "builtin_int w (environ_get env ''EPOCHS'' ''10'') = Inr E"
    "builtin_int w (environ_get env ''EPOCHS_FINE'' ''5'') = Inr EF"
    "isdir w (environ_get env ''PLANTVILLAGE_DIR'' ''data/plantvillage'')"
    "class_weight w (environ_get env ''PLANTVILLAGE_DIR'' ''data/plantvillage'') = Inr cw"
    "calls (run w env) =
       assemble w (environ_get env ''PLANTVILLAGE_DIR'' ''data/plantvillage'') E
       @ phase1 (environ_get env ''PLANTVILLAGE_DIR'' ''data/plantvillage'') E cw
       @ phase2 (environ_get env ''PLANTVILLAGE_DIR'' ''data/plantvillage'') EF cw
       @ export w (environ_get env ''PLANTVILLAGE_DIR'' ''data/plantvillage'')
           (environ_get env ''OUTPUT_PATH'' ''model.h5'')"
    "fits (run w env) =
       [head_run (environ_get env ''PLANTVILLAGE_DIR'' ''data/plantvillage'') E cw,
        fine_run (environ_get env ''PLANTVILLAGE_DIR'' ''data/plantvillage'') EF cw]"
    "writes (run w env) =
       (checkpoint w (head_run (environ_get env ''PLANTVILLAGE_DIR'' ''data/plantvillage'') E cw)
        @ checkpoint w (fine_run (environ_get env ''PLANTVILLAGE_DIR'' ''data/plantvillage'') EF cw)
        @ [Saved_model (environ_get env ''OUTPUT_PATH'' ''model.h5'')])
       @ Truncated ''class_names.txt''
       # map (Appended ''class_names.txt'')
           (map (\<lambda>name. name @ [CHR 0x0A])
              (class_names w (environ_get env ''PLANTVILLAGE_DIR'' ''data/plantvillage'')))"
proof -
  let ?D = "environ_get env ''PLANTVILLAGE_DIR'' ''data/plantvillage''"
  let ?OUT = "environ_get env ''OUTPUT_PATH'' ''model.h5''"
  from assms obtain E EF cw where
    E: "builtin_int w (environ_get env ''EPOCHS'' ''10'') = Inr E" and
    EF: "builtin_int w (environ_get env ''EPOCHS_FINE'' ''5'') = Inr EF" and
    dir: "isdir w ?D" and
    cw: "class_weight w ?D = Inr cw" and
    fin: "status (main_body w ?D E EF ?OUT start) = Running"
    by (rule run_exited0)
  let ?pre = "assemble w ?D E @ phase1 ?D E cw @ phase2 ?D EF cw"
  let ?names = "map (\<lambda>name. name @ [CHR 0x0A]) (class_names w ?D)"
  let ?p = "steps w ?pre start"
  have body: "main_body w ?D E EF ?OUT start = steps w (export w ?D ?OUT) ?p"
    by (simp add: main_body_eq [OF cw] steps_append)
  have run: "run w env = finish (steps w (export w ?D ?OUT) ?p)"
    using run_body [OF E EF dir] body by simp
  have all: "status (steps w (?pre @ export w ?D ?OUT) start) = Running"
    using fin by (simp add: main_body_eq [OF cw])
  then have pre: "status ?p = Running"
    and ex: "\<forall>c \<in> set (export w ?D ?OUT). raises w c = None"
    by (auto simp: steps_running)
  note tr = trained_state [OF pre]
  let ?q = "step w (Open_write ''class_names.txt'') (step w (Save ?OUT) ?p)"
  have q: "status ?q = Running" "opened ?q = Some ''class_names.txt''"
    "writes ?q = writes ?p @ [Saved_model ?OUT, Truncated ''class_names.txt'']"
    "fits ?q = fits ?p"
    using pre ex by (simp_all add: export_def step_ok)
  have wr: "\<forall>s \<in> set ?names. raises w (Write s) = None"
    using ex by (simp add: export_def)
  have tail: "writes (steps w (map Write ?names) ?q) = writes ?q @ map (Appended ''class_names.txt'') ?names
       \<and> fits (steps w (map Write ?names) ?q) = fits ?q
       \<and> status (steps w (map Write ?names) ?q) = Running"
    using q(1) q(2) wr by (rule steps_write_tail)
  have ex_eq: "steps w (export w ?D ?OUT) ?p = steps w (map Write ?names) ?q"
    by (simp add: export_def comp_def)
  have c: "calls (run w env) = ?pre @ export w ?D ?OUT"
    using steps_calls_ok [OF all] by (simp add: run steps_append finish_def start_def)
  have f: "fits (run w env) = [head_run ?D E cw, fine_run ?D EF cw]"
    using tail q tr by (simp add: run ex_eq finish_def)
  have wts: "writes (run w env) =
       (checkpoint w (head_run ?D E cw) @ checkpoint w (fine_run ?D EF cw) @ [Saved_model ?OUT])
       @ Truncated ''class_names.txt'' # map (Appended ''class_names.txt'') ?names"
    using tail q tr by (simp add: run ex_eq finish_def)
  show ?thesis
    by (rule that [OF E EF dir cw]) (use c f wts in simp_all)
qed

subsection \<open>Sample configurations\<close>

lemma sample_int:
  "builtin_int sample_world ''10'' = Inr 10"
  "builtin_int sample_world ''5'' = Inr 5"
  "builtin_int sample_world ''0'' = Inr 0"
  "builtin_int sample_world ''ten'' = Inl ValueError"
  by (simp_all add: sample_world_def ascii_int_def MAX_STR_DIGITS_def strip_def
      py_isspace_def digit_val_def)

lemma run_all_return:
  assumes E: "builtin_int w (environ_get env ''EPOCHS'' ''10'') = Inr E"
    and EF: "builtin_int w (environ_get env ''EPOCHS_FINE'' ''5'') = Inr EF"
    and dir: "isdir w (environ_get env ''PLANTVILLAGE_DIR'' ''data/plantvillage'')"
    and ok: "\<forall>c. raises w c = None"
  shows "status (run w env) = Exited 0"
proof -
  let ?D = "environ_get env ''PLANTVILLAGE_DIR'' ''data/plantvillage''"
  obtain cw where cw: "class_weight w ?D = Inr cw" by (simp add: class_weight_eq)
  have "status (main_body w ?D E EF (environ_get env ''OUTPUT_PATH'' ''model.h5'') start) = Running"
    using ok by (simp add: main_body_eq [OF cw] steps_running)
  then show ?thesis by (simp add: run_body [OF E EF dir] finish_def)
qed

lemma main_body_printed: "printed (main_body w D E EF OUT p) = printed p"
  by (simp add: main_body_def Let_def raise_def split: sum.splits)

lemma finish_printed: "printed (finish p) = printed p"
  by (simp add: finish_def)

lemma sample_run_exits: "status (run sample_world Map.empty) = Exited 0"
  by (rule run_all_return [where E = 10 and EF = 5])
    (simp_all add: environ_get_def sample_int, simp_all add: sample_world_def)

lemma completed_iff: "completed p \<longleftrightarrow> (\<forall>e. status p \<noteq> Raised e)"
  by (cases "status p") (simp_all add: completed_def)


lemma sample_class_names:
  "class_names sample_world ''data/plantvillage'' = [''blight'', ''healthy'', ''rust'']"
  by (simp add: class_names_def image_dataset_from_directory_def load_args_def sample_world_def)

lemma sample_file_count:
  "file_count sample_world ''data/plantvillage/blight'' = 10"
  "file_count sample_world ''data/plantvillage/healthy'' = 20"
  "file_count sample_world ''data/plantvillage/rust'' = 30"
  by (simp_all add: file_count_def sample_world_def sample_files_def)

lemma sample_counts: "counts sample_world ''data/plantvillage'' = [10, 20, 30]"
  unfolding counts_eq sample_class_names
  by (simp add: path_join_def sample_file_count)

subsection \<open>Runs that stop early\<close>

lemma finish_fits [simp]: "fits (finish p) = fits p"
  by (simp add: finish_def)

lemma finish_calls [simp]: "calls (finish p) = calls p"
  by (simp add: finish_def)

lemma step_fit:
  assumes "status p = Running" and "fit_callbacks a = callbacks"
  shows "fits (step w (Fit a) p) =
           fits p @ [\<lparr>run_args = a, run_compiled = compiled p,
                       run_backbone_trainable = backbone_trainable p\<rparr>]"
    and "compiled (step w (Fit a) p) = compiled p"
    and "backbone_trainable (step w (Fit a) p) = backbone_trainable p"
  using assms by (simp_all add: step_def Let_def split: option.splits)

lemma assemble_no_fit: "\<forall>c \<in> set (assemble w D E). \<forall>a. c \<noteq> Fit a"
  by (simp add: assemble_def)

lemma assemble_state:
  assumes "status (steps w (assemble w D E) start) = Running"
  shows "compiled (steps w (assemble w D E) start) = Some (compile_head E)"
    and "backbone_trainable (steps w (assemble w D E) start) = False"
proof -
  from assms have ok: "\<forall>c \<in> set (assemble w D E). raises w c = None"
    by (simp add: steps_running)
  have "steps w (assemble w D E) start =
     start\<lparr>calls := assemble w D E, backbone_trainable := False,
           compiled := Some (compile_head E)\<rparr>"
    using ok by (simp add: assemble_def step_ok start_def)
  then show "compiled (steps w (assemble w D E) start) = Some (compile_head E)"
    and "backbone_trainable (steps w (assemble w D E) start) = False"
    by simp_all
qed

lemma unfreeze_state:
  assumes "status (steps w [Set_trainable True, Compile c] p) = Running"
  shows "compiled (steps w [Set_trainable True, Compile c] p) = Some c"
    and "backbone_trainable (steps w [Set_trainable True, Compile c] p) = True"
proof -
  from assms have ok: "status p = Running" "raises w (Set_trainable True) = None"
    "raises w (Compile c) = None"
    by (simp_all add: step_running)
  then show "compiled (steps w [Set_trainable True, Compile c] p) = Some c"
    and "backbone_trainable (steps w [Set_trainable True, Compile c] p) = True"
    by (simp_all add: step_ok)
qed

lemma head_fit:
  assumes "status (steps w (assemble w D E) start) = Running"
  shows "fits (steps w (assemble w D E @ phase1 D E cw) start) = [head_run D E cw]"
proof -
  have "fits (steps w (assemble w D E) start) = fits start"
    by (rule steps_no_fit) (rule assemble_no_fit)
  then have "fits (steps w (assemble w D E) start) = []"
    by (simp add: start_def)
  then show ?thesis
    using step_fit(1) [OF assms, of "fit_head D E cw" w] assemble_state [OF assms]
    by (simp add: steps_append phase1_def head_run_def)
qed

lemma fine_fit:
  assumes "status (steps w [Set_trainable True, Compile compile_fine] p) = Running"
  shows "fits (steps w (phase2 D EF cw) p) = fits p @ [fine_run D EF cw]"
proof -
  let ?q = "steps w [Set_trainable True, Compile compile_fine] p"
  have "fits ?q = fits p"
    by (rule steps_no_fit) simp
  moreover have "steps w (phase2 D EF cw) p = step w (Fit (fit_fine D EF cw)) ?q"
    by (simp add: phase2_def)
  ultimately show ?thesis
    using step_fit(1) [OF assms, of "fit_fine D EF cw" w] unfreeze_state [OF assms]
    by (simp add: fine_run_def)
qed

subsection \<open>How a training run ends is never read\<close>

lemma begun_fit_end [simp]: "begun (w\<lparr>fit_end := f\<rparr>) c p = begun w c p"
  by (cases c) simp_all

lemma effect_fit_end [simp]: "effect (w\<lparr>fit_end := f\<rparr>) c p = effect w c p"
  by (cases c) simp_all

lemma step_fit_end [simp]: "step (w\<lparr>fit_end := f\<rparr>) c p = step w c p"
  by (simp add: step_def Let_def split: option.splits)

lemma steps_fit_end [simp]: "steps (w\<lparr>fit_end := f\<rparr>) cs p = steps w cs p"
  by (induction cs arbitrary: p) simp_all

lemma class_names_fit_end [simp]: "class_names (w\<lparr>fit_end := f\<rparr>) D = class_names w D"
  by (simp add: class_names_def image_dataset_from_directory_def)

lemma counts_fit_end [simp]: "counts (w\<lparr>fit_end := f\<rparr>) D = counts w D"
  by (simp add: counts_eq file_count_def)

lemma class_weight_fit_end [simp]: "class_weight (w\<lparr>fit_end := f\<rparr>) D = class_weight w D"
  by (simp add: class_weight_def num_classes_def total_count_eq)

lemma main_body_fit_end [simp]:
  "main_body (w\<lparr>fit_end := f\<rparr>) D E EF OUT p = main_body w D E EF OUT p"
  by (simp add: main_body_def assemble_def export_def num_classes_def Let_def
      split: sum.splits)

lemma run_fit_end: "run (w\<lparr>fit_end := f\<rparr>) env = run w env"
  by (simp add: run_def Let_def split: sum.splits)

subsection \<open>A compilation that raises\<close>

lemma compile_raises:
  assumes E: "builtin_int w (environ_get env ''EPOCHS'' ''10'') = Inr E"
    and EF: "builtin_int w (environ_get env ''EPOCHS_FINE'' ''5'') = Inr EF"
    and dir: "isdir w (environ_get env ''PLANTVILLAGE_DIR'' ''data/plantvillage'')"
    and before: "\<forall>c \<in> set (butlast (assemble w (environ_get env ''PLANTVILLAGE_DIR'' ''data/plantvillage'') E)).
                   raises w c = None"
    and rejected: "raises w (Compile (compile_head E)) = Some e"
  shows "status (run w env) = Raised e" and "fits (run w env) = []"
    and "writes (run w env) = []"
    and "last (calls (run w env)) = Compile (compile_head E)"
proof -
  let ?D = "environ_get env ''PLANTVILLAGE_DIR'' ''data/plantvillage''"
  let ?OUT = "environ_get env ''OUTPUT_PATH'' ''model.h5''"
  obtain cw where cw: "class_weight w ?D = Inr cw" by (simp add: class_weight_eq)
  let ?P = "steps w (assemble w ?D E) start"
  have P: "?P = start\<lparr>calls := assemble w ?D E, backbone_trainable := False,
                        status := Raised e\<rparr>"
    using before rejected by (simp add: assemble_def step_def start_def)
  then have halted: "status ?P \<noteq> Running" by simp
  have "run w env = finish ?P"
    using halted
    by (simp add: run_body [OF E EF dir] main_body_eq [OF cw] steps_append steps_halted)
  then have r: "run w env = ?P" using halted by (simp add: finish_def)
  show "status (run w env) = Raised e" and "fits (run w env) = []"
    and "writes (run w env) = []"
    and "last (calls (run w env)) = Compile (compile_head E)"
    unfolding r P by (simp_all add: start_def assemble_def)
qed

lemma keras_raises_simps [simp]:
  "keras_raises (Image_dataset_from_directory r) = None"
  "keras_raises (MobileNetV2 wts inc shape) = None"
  "keras_raises (Set_trainable b) = None"
  "keras_raises (Model shape ls) = None"
  "keras_raises (Compile (compile_head E)) = Some TypeError"
  "keras_raises (Compile compile_fine) = Some TypeError"
  by (simp_all add: keras_raises_def compile_head_def compile_fine_def loss_keywords_def
      loss_arguments_def)

subsection \<open>The loader's split\<close>




section \<open>The claims\<close>






text \<open>
  Claim C1.  In every run that exits with code 0, the text written to
  \<^verbatim>\<open>class_names.txt\<close> is the class names of the training data set in their order, each
  followed by a line feed; the model was built with a final dense layer of exactly as
  many units as there are names, and every model the run builds ends in that layer.
  When no name contains a line feed, line \<open>i\<close> of the file is name \<open>i\<close>, the class the
  data set labels \<open>i\<close>.  The world, and with it the order of the names, is arbitrary.
\<close>

theorem class_names_file_follows_output_layer:
  assumes "status (run w env) = Exited 0"
  shows "text_of ''class_names.txt'' (writes (run w env)) =
           concat (map (\<lambda>name. name @ [CHR 0x0A])
             (class_names w (environ_get env ''PLANTVILLAGE_DIR'' ''data/plantvillage'')))
       \<and> Model input_shape
            (model_layers (length (class_names w (environ_get env ''PLANTVILLAGE_DIR'' ''data/plantvillage''))))
            \<in> set (calls (run w env))
       \<and> (\<forall>shape ls. Model shape ls \<in> set (calls (run w env)) \<longrightarrow>
            last ls = (Dense (length (class_names w (environ_get env ''PLANTVILLAGE_DIR'' ''data/plantvillage'')))
                         ''softmax'', None))
       \<and> ((\<forall>name \<in> set (class_names w (environ_get env ''PLANTVILLAGE_DIR'' ''data/plantvillage'')).
              CHR 0x0A \<notin> set name) \<longrightarrow>
            splitlines (text_of ''class_names.txt'' (writes (run w env))) =
              class_names w (environ_get env ''PLANTVILLAGE_DIR'' ''data/plantvillage''))"
proof -
  let ?D = "environ_get env ''PLANTVILLAGE_DIR'' ''data/plantvillage''"
  let ?OUT = "environ_get env ''OUTPUT_PATH'' ''model.h5''"
  from assms obtain E EF cw where
    c: "calls (run w env) = assemble w ?D E @ phase1 ?D E cw @ phase2 ?D EF cw @ export w ?D ?OUT" and
    wr: "writes (run w env) =
       (checkpoint w (head_run ?D E cw) @ checkpoint w (fine_run ?D EF cw) @ [Saved_model ?OUT])
       @ Truncated ''class_names.txt''
       # map (Appended ''class_names.txt'') (map (\<lambda>name. name @ [CHR 0x0A]) (class_names w ?D))"
    by (rule completed_run)
  have content: "text_of ''class_names.txt'' (writes (run w env)) =
           concat (map (\<lambda>name. name @ [CHR 0x0A]) (class_names w ?D))"
    unfolding wr by (rule text_of_written)
  have m1: "Model input_shape (model_layers (length (class_names w ?D))) \<in> set (calls (run w env))"
    by (simp add: c assemble_def num_classes_def)
  have m2: "last ls = (Dense (length (class_names w ?D)) ''softmax'', None)"
    if "Model shape ls \<in> set (calls (run w env))" for shape ls
    using that
    by (auto simp: c assemble_def phase1_def phase2_def export_def num_classes_def model_layers_def)
  have ln: "splitlines (text_of ''class_names.txt'' (writes (run w env))) = class_names w ?D"
    if "\<forall>name \<in> set (class_names w ?D). CHR 0x0A \<notin> set name"
    using that by (simp add: content splitlines_written)
  show ?thesis using content m1 m2 ln by blast
qed

theorem class_names_file_follows_output_layer_witness:
  "status (run sample_world Map.empty) = Exited 0
   \<and> splitlines (text_of ''class_names.txt'' (writes (run sample_world Map.empty))) =
       [''blight'', ''healthy'', ''rust'']
   \<and> Model input_shape (model_layers 3) \<in> set (calls (run sample_world Map.empty))"
  using class_names_file_follows_output_layer [OF sample_run_exits]
  by (simp add: sample_class_names sample_run_exits environ_get_def numeral_3_eq_3
      splitlines_def)

text \<open>
  Claim C2.  The class-weight loops never raise, and the table maps every class index
  \<open>i\<close> below the number of classes to the total of the per-class file counts divided by
  (number of classes times \<open>max count\<^sub>i 1\<close>); the total is the sum of the counts and
  count \<open>i\<close> is the number of regular files in the directory of class \<open>i\<close>.  For the
  counts 10, 20, 30 the weights are 60/(3*10), 60/(3*20) and 60/(3*30).  The quotient is
  the exact rational number, which Python rounds to the nearest float.
\<close>

theorem class_weight_formula:
  assumes "i < num_classes w D"
  shows "(\<exists>cw. class_weight w D = Inr cw
           \<and> cw i = Some (of_int (total_count w D) /
                          of_int (int (num_classes w D) * max (counts w D ! i) 1)))
       \<and> total_count w D = sum_list (counts w D)
       \<and> length (counts w D) = num_classes w D
       \<and> counts w D ! i = int (file_count w (path_join D (class_names w D ! i)))
       \<and> (\<exists>cw. weight_loop (10 + 20 + 30) 3 (enumerate 0 [10, 20, 30]) Map.empty = Inr cw
           \<and> cw 0 = Some (60 / (3 * 10)) \<and> cw 1 = Some (60 / (3 * 20))
           \<and> cw 2 = Some (60 / (3 * 30)))"
proof -
  have "\<exists>cw. weight_loop (10 + 20 + 30) 3 (enumerate 0 [10, 20, 30]) Map.empty = Inr cw
           \<and> cw 0 = Some (60 / (3 * 10)) \<and> cw 1 = Some (60 / (3 * 20))
           \<and> cw 2 = Some (60 / (3 * 30))"
    by (simp add: truediv_def)
  moreover have "counts w D ! i = int (file_count w (path_join D (class_names w D ! i)))"
    using assms by (simp add: counts_eq num_classes_def)
  moreover have "length (counts w D) = num_classes w D"
    by (simp add: counts_eq num_classes_def)
  ultimately show ?thesis
    using assms by (simp add: class_weight_eq total_count_eq)
qed

theorem class_weight_formula_witness:
  "(1::nat) < num_classes sample_world ''data/plantvillage''
   \<and> counts sample_world ''data/plantvillage'' = [10, 20, 30]
   \<and> total_count sample_world ''data/plantvillage'' = 60
   \<and> (\<exists>cw. class_weight sample_world ''data/plantvillage'' = Inr cw \<and> cw 1 = Some 1)"
proof -
  have n: "(1::nat) < num_classes sample_world ''data/plantvillage''"
    by (simp add: num_classes_def sample_class_names)
  from class_weight_formula [OF n] obtain cw where
    cw: "class_weight sample_world ''data/plantvillage'' = Inr cw" and
    w1: "cw 1 = Some (of_int (total_count sample_world ''data/plantvillage'') /
           of_int (int (num_classes sample_world ''data/plantvillage'')
                   * max (counts sample_world ''data/plantvillage'' ! 1) 1))" and
    tot: "total_count sample_world ''data/plantvillage'' =
           sum_list (counts sample_world ''data/plantvillage'')"
    by blast
  have t: "total_count sample_world ''data/plantvillage'' = 60"
    using tot by (simp add: sample_counts)
  have "cw 1 = Some 1"
    using w1 by (simp add: t sample_counts num_classes_def sample_class_names)
  with cw n t show ?thesis by (simp add: sample_counts)
qed

text \<open>
  Claim C7.  After any sequence of earlier requests, \<^verbatim>\<open>GET /health\<close> is answered with
  status 200 and the body \<^verbatim>\<open>{"status": "healthy"}\<close>; \<^verbatim>\<open>GET /\<close> is answered with status
  200 and a body holding the welcome message and \<^verbatim>\<open>"status": "active"\<close>.  The answer to
  a request does not depend on the requests before it.
\<close>

theorem health_is_stateless:
  "last (serve (history @ [\<lparr>req_method = ''GET'', req_path = ''/health''\<rparr>])) =
     Some \<lparr>status_code = 200, body = JObject [(''status'', JString ''healthy'')]\<rparr>
   \<and> app \<lparr>req_method = ''GET'', req_path = ''/health''\<rparr> =
     Some \<lparr>status_code = 200, body = JObject [(''status'', JString ''healthy'')]\<rparr>
   \<and> app \<lparr>req_method = ''GET'', req_path = ''/''\<rparr> =
     Some \<lparr>status_code = 200,
           body = JObject [(''message'', JString ''Welcome to AgriShield AI Backend''),
                           (''status'', JString ''active'')]\<rparr>
   \<and> serve (history @ [r]) = serve history @ [app r]"
  by (simp add: serve_def app_def routes_def health_check_def read_root_def)

text \<open>
  Claim C9.  The configured origins are the two listed ones and the wild card, methods
  and headers are the wild card, credentials are allowed; the middleware's origin test
  therefore admits every origin.
\<close>

theorem cors_admits_every_origin:
  "is_allowed_origin cors_middleware origin
   \<and> ''http://localhost:5173'' \<in> set (allow_origins cors_middleware)
   \<and> ''http://localhost:3000'' \<in> set (allow_origins cors_middleware)
   \<and> ''*'' \<in> set (allow_origins cors_middleware)
   \<and> allow_methods cors_middleware = [''*'']
   \<and> allow_headers cors_middleware = [''*'']
   \<and> allow_credentials cors_middleware"
  by (simp add: is_allowed_origin_def cors_middleware_def origins_def)

text \<open>
  Claim C8.  The augmentation stage is the sequence horizontal flip, rotation by up to
  10 percent of a turn, zoom by up to 15 percent, contrast by up to 20 percent and
  brightness by up to 20 percent.  It is the first layer of the model and is called
  without a mode of its own, so a call of the model in training mode applies the five
  transforms in that order and a call in inference mode, as for validation data, skips
  them; the two input pipelines themselves hold no augmentation.
\<close>

theorem augmentation_in_training_mode_only:
  "data_augmentation =
     [RandomFlip ''horizontal'', RandomRotation (10 / 100), RandomZoom (15 / 100),
      RandomContrast (20 / 100), RandomBrightness (20 / 100)]
   \<and> model_layers n =
       (Sequential data_augmentation, None) #
       [(Preprocess_input, None), (Backbone, Some False), (GlobalAveragePooling2D, None),
        (Dropout (20 / 100), None), (Dense n ''softmax'', None)]
   \<and> model_call K True rnd (model_layers n) x =
       model_call K True rnd (tl (model_layers n)) (augment K rnd data_augmentation x)
   \<and> model_call K False rnd (model_layers n) x = model_call K False rnd (tl (model_layers n)) x
   \<and> augment K rnd data_augmentation x =
       random_transform K (RandomBrightness (20 / 100)) rnd
        (random_transform K (RandomContrast (20 / 100)) rnd
          (random_transform K (RandomZoom (15 / 100)) rnd
            (random_transform K (RandomRotation (10 / 100)) rnd
              (random_transform K (RandomFlip ''horizontal'') rnd x))))
   \<and> ops (train_ds D) = [Cache, Shuffle 1000, Prefetch]
   \<and> ops (val_ds D) = [Cache, Prefetch]"
  by (simp add: data_augmentation_def model_layers_def model_call_def call_layer_def
      augment_def train_ds_def val_ds_def)

text \<open>
  Claim C3 is not met by the code.  Lines 71 and 107 build the loss as
  \<^verbatim>\<open>SparseCategoricalCrossentropy(label_smoothing=0.1)\<close>; that constructor has no such
  parameter, so with the library as released the first compilation raises \<^verbatim>\<open>TypeError\<close>:
  with the default configuration and the data set present, the run ends there, no
  training run is ever made and nothing is written.  The second compilation passes the
  same arguments and would raise in the same way.
\<close>

theorem label_smoothing_rejected_by_sparse_loss:
  "loss (compile_head 10) = SparseCategoricalCrossentropy [(''label_smoothing'', 1 / 10)]
   \<and> loss compile_fine = SparseCategoricalCrossentropy [(''label_smoothing'', 1 / 10)]
   \<and> raises keras_world (Compile (compile_head 10)) = Some TypeError
   \<and> raises keras_world (Compile compile_fine) = Some TypeError
   \<and> isdir keras_world ''data/plantvillage''
   \<and> status (run keras_world Map.empty) = Raised TypeError
   \<and> fits (run keras_world Map.empty) = []
   \<and> writes (run keras_world Map.empty) = []
   \<and> last (calls (run keras_world Map.empty)) = Compile (compile_head 10)"
proof -
  have E: "builtin_int keras_world (environ_get Map.empty ''EPOCHS'' ''10'') = Inr 10"
    and EF: "builtin_int keras_world (environ_get Map.empty ''EPOCHS_FINE'' ''5'') = Inr 5"
    using sample_int by (simp_all add: keras_world_def environ_get_def)
  have dir: "isdir keras_world (environ_get Map.empty ''PLANTVILLAGE_DIR'' ''data/plantvillage'')"
    by (simp add: keras_world_def sample_world_def environ_get_def)
  have r: "raises keras_world = keras_raises" by (simp add: keras_world_def)
  have before: "\<forall>c \<in> set (butlast (assemble keras_world
        (environ_get Map.empty ''PLANTVILLAGE_DIR'' ''data/plantvillage'') 10)).
      raises keras_world c = None"
    by (simp add: r assemble_def)
  have rejected: "raises keras_world (Compile (compile_head 10)) = Some TypeError"
    by (simp add: r)
  have rejected_fine: "raises keras_world (Compile compile_fine) = Some TypeError"
    by (simp add: r)
  note c = compile_raises [OF E EF dir before rejected]
  show ?thesis
    using c dir rejected rejected_fine
    by (simp add: environ_get_def compile_head_def compile_fine_def)
qed

text \<open>
  Claim C5.  Suppose the configuration parses, the directory exists and phase 1 has
  completed, that is, every call up to and including the first \<^verbatim>\<open>fit\<close> has returned.
  Phase 1 trained the model with the backbone frozen and Adam on a cosine decay from
  1/1000 over \<open>EPOCHS * 1000\<close> steps.  The very next call of the run unfreezes the
  backbone; when that and the second compilation return, the second training run is
  made with the backbone trainable and Adam at the fixed rate 1/100000.  Nothing is
  skipped: the run is the same whatever the library reports about how a training run
  ended (epochs exhausted or stopped early).
\<close>

theorem fine_tuning_always_follows:
  assumes E: "builtin_int w (environ_get env ''EPOCHS'' ''10'') = Inr E"
    and EF: "builtin_int w (environ_get env ''EPOCHS_FINE'' ''5'') = Inr EF"
    and D: "D = environ_get env ''PLANTVILLAGE_DIR'' ''data/plantvillage''"
    and dir: "isdir w D"
    and cw: "class_weight w D = Inr cw"
    and done1: "status (steps w (assemble w D E @ phase1 D E cw) start) = Running"
  shows "fits (steps w (assemble w D E @ phase1 D E cw) start) = [head_run D E cw]
       \<and> run_compiled (head_run D E cw) = Some (compile_head E)
       \<and> optimizer (compile_head E) = Adam (CosineDecay (1 / 1000) (E * 1000))
       \<and> \<not> run_backbone_trainable (head_run D E cw)
       \<and> (\<exists>rest. calls (run w env) =
             assemble w D E @ phase1 D E cw @ Set_trainable True # rest)
       \<and> (raises w (Set_trainable True) = None \<and> raises w (Compile compile_fine) = None \<longrightarrow>
             fits (run w env) = [head_run D E cw, fine_run D EF cw]
           \<and> (\<exists>rest. calls (run w env) =
                 assemble w D E @ phase1 D E cw @ phase2 D EF cw @ rest))
       \<and> run_compiled (fine_run D EF cw) = Some compile_fine
       \<and> optimizer compile_fine = Adam (Fixed (1 / 100000))
       \<and> run_backbone_trainable (fine_run D EF cw)
       \<and> run (w\<lparr>fit_end := f\<rparr>) env = run w env"
proof -
  let ?OUT = "environ_get env ''OUTPUT_PATH'' ''model.h5''"
  let ?P1 = "steps w (assemble w D E @ phase1 D E cw) start"
  let ?P2 = "steps w [Set_trainable True, Compile compile_fine] ?P1"
  have "run w env = finish (main_body w D E EF ?OUT start)"
    using run_body [OF E EF] dir by (simp add: D)
  then have r: "run w env = finish (steps w (export w D ?OUT) (steps w (phase2 D EF cw) ?P1))"
    by (simp add: main_body_eq [OF cw] steps_append)
  have p0: "status (steps w (assemble w D E) start) = Running"
    using done1 by (simp add: steps_append steps_running)
  have f1: "fits ?P1 = [head_run D E cw]" by (rule head_fit [OF p0])
  have c1: "calls ?P1 = assemble w D E @ phase1 D E cw"
    using steps_calls_ok [OF done1] by (simp add: start_def)
  have next_call: "\<exists>rest. calls (run w env) =
             assemble w D E @ phase1 D E cw @ Set_trainable True # rest"
  proof -
    have "steps w (export w D ?OUT) (steps w (phase2 D EF cw) ?P1) =
          steps w (Set_trainable True # Compile compile_fine # Fit (fit_fine D EF cw)
                     # export w D ?OUT) ?P1"
      by (simp add: phase2_def)
    moreover obtain rest where
      "calls (steps w (Set_trainable True # Compile compile_fine # Fit (fit_fine D EF cw)
                     # export w D ?OUT) ?P1) = calls ?P1 @ Set_trainable True # rest"
      using steps_calls_first [OF done1] by blast
    ultimately show ?thesis by (simp add: r c1)
  qed
  have fine: "fits (run w env) = [head_run D E cw, fine_run D EF cw]
           \<and> (\<exists>rest. calls (run w env) =
                 assemble w D E @ phase1 D E cw @ phase2 D EF cw @ rest)"
    if ok: "raises w (Set_trainable True) = None \<and> raises w (Compile compile_fine) = None"
  proof -
    have p2: "status ?P2 = Running"
      using done1 ok by (simp add: step_running)
    have "fits (steps w (phase2 D EF cw) ?P1) = fits ?P1 @ [fine_run D EF cw]"
      by (rule fine_fit [OF p2])
    then have f: "fits (run w env) = [head_run D E cw, fine_run D EF cw]"
      by (simp add: r f1 steps_no_fit [OF export_no_fit])
    have "steps w (phase2 D EF cw) ?P1 = step w (Fit (fit_fine D EF cw)) ?P2"
      by (simp add: phase2_def)
    then have "calls (steps w (phase2 D EF cw) ?P1) = calls ?P2 @ [Fit (fit_fine D EF cw)]"
      using p2 by (simp add: step_calls)
    moreover have "calls ?P2 = calls ?P1 @ [Set_trainable True, Compile compile_fine]"
      by (rule steps_calls_ok [OF p2])
    moreover obtain rest where
      "calls (steps w (export w D ?OUT) (steps w (phase2 D EF cw) ?P1)) =
         calls (steps w (phase2 D EF cw) ?P1) @ rest"
      using steps_calls_extend by blast
    ultimately have "calls (run w env) = assemble w D E @ phase1 D E cw @ phase2 D EF cw @ rest"
      by (simp add: r c1 phase2_def)
    with f show ?thesis by blast
  qed
  show ?thesis
    using f1 next_call fine
    by (simp add: run_fit_end head_run_def fine_run_def compile_head_def compile_fine_def
        opt_def lr_schedule_def fine_opt_def)
qed

theorem fine_tuning_always_follows_witness:
  "builtin_int sample_world (environ_get Map.empty ''EPOCHS'' ''10'') = Inr 10
   \<and> builtin_int sample_world (environ_get Map.empty ''EPOCHS_FINE'' ''5'') = Inr 5
   \<and> isdir sample_world ''data/plantvillage''
   \<and> (\<exists>cw. class_weight sample_world ''data/plantvillage'' = Inr cw
         \<and> status (steps sample_world
               (assemble sample_world ''data/plantvillage'' 10 @ phase1 ''data/plantvillage'' 10 cw)
               start) = Running
         \<and> fits (run sample_world Map.empty) =
               [head_run ''data/plantvillage'' 10 cw, fine_run ''data/plantvillage'' 5 cw])"
proof -
  let ?D = "''data/plantvillage''"
  have E: "builtin_int sample_world (environ_get Map.empty ''EPOCHS'' ''10'') = Inr 10"
    and EF: "builtin_int sample_world (environ_get Map.empty ''EPOCHS_FINE'' ''5'') = Inr 5"
    by (simp_all add: environ_get_def sample_int)
  have D: "?D = environ_get Map.empty ''PLANTVILLAGE_DIR'' ''data/plantvillage''"
    by (simp add: environ_get_def)
  have dir: "isdir sample_world ?D" by (simp add: sample_world_def)
  have ok: "raises sample_world c = None" for c by (simp add: sample_world_def)
  obtain cw where cw: "class_weight sample_world ?D = Inr cw"
    by (simp add: class_weight_eq)
  have done1: "status (steps sample_world (assemble sample_world ?D 10 @ phase1 ?D 10 cw) start)
      = Running"
    by (simp add: steps_running ok)
  from fine_tuning_always_follows [OF E EF D dir cw done1] ok
  have "fits (run sample_world Map.empty) = [head_run ?D 10 cw, fine_run ?D 5 cw]"
    by simp
  with E EF dir cw done1 show ?thesis by blast
qed


lemma small_images [simp]: "image_paths small_world ''data/plantvillage'' = five_images"
  by (simp add: small_world_def)

lemma small_shuffle [simp]: "shuffle small_world sd xs = rev xs"
  by (simp add: small_world_def sample_world_def)


end
